theory Spec2Isabelle
  imports Complex_Main "HOL-Library.AList"
begin

section \<open>Data model\<close>

text \<open>
  The ambient types \<open>Conversation\<close>, \<open>Message\<close> and their parts are declared outside
  the component files; the records below follow the fields the components read and write
  (\<open>title\<close>, \<open>messages\<close>, \<open>summary\<close>, \<open>systemInstruction\<close>, \<open>chatLayout\<close>;
  \<open>message.parts\<close>, \<open>part.text\<close>). Strings are lists of characters; the text of a
  part is optional (a part may carry other content only).
\<close>

record Part =
  partText :: "string option"

record Message =
  role :: string
  parts :: "Part list"

record Summary =
  ids :: "string list"
  content :: string

record Conversation =
  title :: string
  messages :: "Message list"
  summary :: Summary
  systemInstruction :: string
  chatLayout :: string

text \<open>
  A JavaScript object used as \<open>Record<string, Conversation>\<close> is an association list in
  insertion order with one entry per key: \<open>entries\<close> enumerates it in that order and an
  assignment \<open>o[k] = v\<close> overwrites in place or appends (\<open>AList.update\<close>). (Keys
  that are array indices would be enumerated first; \<open>default\<close> and the 12-character
  ids are not.)
\<close>

type_synonym ConversationRecord = "(string \<times> Conversation) list"

section \<open>The stores\<close>

record MessageStore =
  liveTitle :: string
  liveMessages :: "Message list"
  liveSummary :: Summary
  liveSystemInstruction :: string
  liveChatLayout :: string

record ConversationStore =
  conversationList :: ConversationRecord
  pinned :: "string list"
  currentId :: string

record App =
  conv :: ConversationStore
  msg :: MessageStore

datatype error = UnknownId string | SyntaxError

text \<open>
  Modelled from the spec: \<open>backup\<close> of the message store (\<open>store/chat\<close> is imported
  by the sidebar but is not among the source files) constructs a Conversation snapshot from
  the live fields.
\<close>

definition backup :: "MessageStore \<Rightarrow> Conversation" where
  "backup m =
     \<lparr>title = liveTitle m, messages = liveMessages m, summary = liveSummary m,
      systemInstruction = liveSystemInstruction m, chatLayout = liveChatLayout m\<rparr>"

text \<open>
  Modelled from the spec: \<open>restore\<close> of the message store (\<open>store/chat\<close>) loads a
  Conversation into the live fields, replacing all of them.
\<close>

definition restore :: "Conversation \<Rightarrow> MessageStore \<Rightarrow> MessageStore" where
  "restore c m =
     m\<lparr>liveTitle := title c, liveMessages := messages c, liveSummary := summary c,
       liveSystemInstruction := systemInstruction c, liveChatLayout := chatLayout c\<rparr>"

text \<open>
  Modelled from the spec: \<open>setTitle\<close> of the message store (\<open>store/chat\<close>) updates the
  live title directly.
\<close>

definition setTitle :: "string \<Rightarrow> MessageStore \<Rightarrow> MessageStore" where
  "setTitle t m = m\<lparr>liveTitle := t\<rparr>"

text \<open>
  Modelled from the spec: \<open>addOrUpdate\<close> of the conversation store
  (\<open>store/conversation\<close> is imported by the sidebar but is not among the source files)
  writes a Conversation into the Conversation List at a key, insert-or-overwrite.
\<close>

definition addOrUpdate :: "string \<Rightarrow> Conversation \<Rightarrow> ConversationStore \<Rightarrow> ConversationStore" where
  "addOrUpdate k c s = s\<lparr>conversationList := AList.update k c (conversationList s)\<rparr>"

text \<open>
  Modelled from the spec: \<open>query\<close> of the conversation store (\<open>store/conversation\<close>)
  looks up the Conversation List entry at an id, which may be absent.
\<close>

definition query :: "string \<Rightarrow> ConversationStore \<Rightarrow> Conversation option" where
  "query k s = map_of (conversationList s) k"

text \<open>
  Modelled from the spec: \<open>setCurrentId\<close> of the conversation store
  (\<open>store/conversation\<close>) sets the current id.
\<close>

definition setCurrentId :: "string \<Rightarrow> ConversationStore \<Rightarrow> ConversationStore" where
  "setCurrentId k s = s\<lparr>currentId := k\<rparr>"

text \<open>
  Modelled from the spec: the stores at the start (their modules are not among the source
  files) hold the reserved conversation \<open>default\<close> only, with empty fields, and it is
  the current one.
\<close>

definition emptyConversation :: Conversation where
  "emptyConversation =
     \<lparr>title = '''', messages = [], summary = \<lparr>ids = [], content = ''''\<rparr>,
      systemInstruction = '''', chatLayout = ''doc''\<rparr>"

definition initialApp :: App where
  "initialApp =
     \<lparr>conv = \<lparr>conversationList = [(''default'', emptyConversation)], pinned = [],
              currentId = ''default''\<rparr>,
      msg = restore emptyConversation
              \<lparr>liveTitle = '''', liveMessages = [], liveSummary = \<lparr>ids = [], content = ''''\<rparr>,
               liveSystemInstruction = '''', liveChatLayout = ''doc''\<rparr>\<rparr>"

section \<open>Sidebar: selecting and creating conversations\<close>

text \<open>
  \<open>handleSelect\<close> of \<open>ConversationItem\<close>: back the live fields up under the current
  id, then look the target up, make it current and restore it. What \<open>restore\<close> does
  with the \<open>undefined\<close> of a failed lookup is fixed by the absent store module; the spec
  calls it a contract violation of the caller, and the model returns it as an error.
\<close>

definition handleSelect :: "string \<Rightarrow> App \<Rightarrow> error + App" where
  "handleSelect target s =
     (let oldConversation = backup (msg s);
          cs1 = addOrUpdate (currentId (conv s)) oldConversation (conv s)
      in case query target cs1 of
           None \<Rightarrow> Inl (UnknownId target)
         | Some newConversation \<Rightarrow>
             Inr \<lparr>conv = setCurrentId target cs1, msg = restore newConversation (msg s)\<rparr>)"

text \<open>\<open>editTitle\<close> of \<open>ConversationItem\<close> calls \<open>setTitle\<close> of the message store.\<close>

definition editTitle :: "string \<Rightarrow> App \<Rightarrow> App" where
  "editTitle t s = s\<lparr>msg := setTitle t (msg s)\<rparr>"

text \<open>
  \<open>nanoid = customAlphabet('1234567890abcdefghijklmnopqrstuvwxyz', 12)\<close>. The
  generator that \<open>customAlphabet\<close> of the nanoid library returns draws random bytes,
  masks each byte to six bits (the smallest mask that covers 36 letters), skips an index
  outside of the alphabet, and stops at the requested size. The random bytes are an
  argument here; \<open>None\<close> stands for a supply with fewer than 12 usable bytes, where the
  library would draw again.
\<close>

definition alphabet :: string where
  "alphabet = ''1234567890abcdefghijklmnopqrstuvwxyz''"

definition idSize :: nat where
  "idSize = 12"

definition nanoid :: "nat list \<Rightarrow> string option" where
  "nanoid bytes =
     (let cs = map (\<lambda>b. alphabet ! (b mod 64)) (filter (\<lambda>b. b mod 64 < length alphabet) bytes)
      in if idSize \<le> length cs then Some (take idSize cs) else None)"

text \<open>\<open>newConversation\<close> of \<open>AppSidebar\<close>; \<open>rnd\<close> is the random supply of \<open>nanoid\<close>.\<close>

definition newConversation :: "nat list \<Rightarrow> App \<Rightarrow> App option" where
  "newConversation rnd s =
     (let oldConversation = backup (msg s);
          cs1 = addOrUpdate (currentId (conv s)) oldConversation (conv s)
      in case nanoid rnd of
           None \<Rightarrow> None
         | Some nid \<Rightarrow>
             (let newConv = \<lparr>title = '''', messages = [],
                               summary = \<lparr>ids = [], content = ''''\<rparr>,
                               systemInstruction = '''', chatLayout = ''doc''\<rparr>;
                  cs2 = setCurrentId nid cs1;
                  cs3 = addOrUpdate nid newConv cs2
              in Some \<lparr>conv = cs3, msg = restore newConv (msg s)\<rparr>))"

section \<open>Sidebar: rendered rows\<close>

text \<open>
  \<open>interface ConversationItem extends Conversation { id }\<close>: an entry of the derived
  lists, \<open>{ id, ...conversation }\<close>.
\<close>

record ConversationItem =
  itemId :: string
  itemConversation :: Conversation

text \<open>
  The \<open>useMemo\<close> of \<open>AppSidebar\<close> that derives \<open>[list, pinnedList]\<close>: the loop over
  \<open>entries(sources)\<close>, with the two arrays it pushes to as accumulators.
\<close>

fun splitEntries ::
  "string list \<Rightarrow> ConversationRecord \<Rightarrow> ConversationItem list \<times> ConversationItem list \<Rightarrow>
   ConversationItem list \<times> ConversationItem list" where
  "splitEntries pins [] (lst, pinnedList) = (lst, pinnedList)"
| "splitEntries pins ((k, conversation) # es) (lst, pinnedList) =
     (if k \<noteq> ''default'' then
        (if k \<in> set pins
         then splitEntries pins es
                (lst, pinnedList @ [\<lparr>itemId = k, itemConversation = conversation\<rparr>])
         else splitEntries pins es
                (lst @ [\<lparr>itemId = k, itemConversation = conversation\<rparr>], pinnedList))
      else splitEntries pins es (lst, pinnedList))"

definition sidebarSources :: "ConversationRecord option \<Rightarrow> ConversationRecord \<Rightarrow> ConversationRecord" where
  "sidebarSources conversations cl = (case conversations of None \<Rightarrow> cl | Some r \<Rightarrow> r)"

definition derivedLists ::
  "ConversationRecord option \<Rightarrow> ConversationRecord \<Rightarrow> string list \<Rightarrow>
   ConversationItem list \<times> ConversationItem list" where
  "derivedLists conversations cl pins =
     splitEntries pins (sidebarSources conversations cl) ([], [])"

text \<open>
  The props of the component \<open>ConversationItem\<close>, and the title it shows:
  \<open>title === '' ? t('chatAnything') : title\<close>, with the translation function \<open>t\<close> as
  an argument.
\<close>

record Props =
  propId :: string
  propTitle :: string
  propPinned :: bool
  propIsActive :: bool

definition conversationTitle :: "(string \<Rightarrow> string) \<Rightarrow> Props \<Rightarrow> string" where
  "conversationTitle t props =
     (if propTitle props = '''' then t ''chatAnything'' else propTitle props)"

text \<open>
  The rows \<open>AppSidebar\<close> renders: the row of the reserved conversation, with the fixed
  title \<open>t('defaultConversation')\<close>, then a row for each item of \<open>pinnedList\<close> and of
  \<open>list\<close>, with \<open>title={item.title}\<close>.
\<close>

definition defaultRow :: "(string \<Rightarrow> string) \<Rightarrow> string \<Rightarrow> Props" where
  "defaultRow t cur =
     \<lparr>propId = ''default'', propTitle = t ''defaultConversation'', propPinned = False,
      propIsActive = (cur = ''default'')\<rparr>"

definition itemRow :: "bool \<Rightarrow> string \<Rightarrow> ConversationItem \<Rightarrow> Props" where
  "itemRow pin cur it =
     \<lparr>propId = itemId it, propTitle = title (itemConversation it), propPinned = pin,
      propIsActive = (cur = itemId it)\<rparr>"

definition sidebarRows ::
  "(string \<Rightarrow> string) \<Rightarrow> ConversationRecord option \<Rightarrow> ConversationRecord \<Rightarrow> string list \<Rightarrow>
   string \<Rightarrow> Props list" where
  "sidebarRows t conversations cl pins cur =
     (case derivedLists conversations cl pins of
        (lst, pinnedList) \<Rightarrow>
          defaultRow t cur # map (itemRow True cur) pinnedList @ map (itemRow False cur) lst)"

section \<open>Sidebar: title summarization\<close>

text \<open>
  \<open>handleSummaryTitle\<close> is asynchronous: it suspends at \<open>await summaryTitle(config)\<close>
  and at every \<open>await reader.read()\<close>, and other handlers run in between. The task
  record holds what the call read from the stores before its first \<open>await\<close>
  (\<open>currentId\<close>, \<open>query(id)\<close>, the request's messages and system role) and the
  accumulated \<open>content\<close>. An event is what happens at a suspension point: the stream
  delivers a chunk (its decoded text), or the user selects a conversation. The rest of
  the request (key, proxy, model, language) only reaches the summary service.
\<close>

record SummaryTask =
  taskId :: string
  taskCurrentId :: string
  taskConversation :: Conversation
  taskMessages :: "Message list"
  taskSystemRole :: string
  taskContent :: string

datatype event = Chunk string | Select string

text \<open>
  The synchronous prefix of the call. The menu offers the action on rows of the list, so
  an id without an entry is reported as an error.
\<close>

definition summaryStart :: "string \<Rightarrow> App \<Rightarrow> error + SummaryTask" where
  "summaryStart k s =
     (case query k (conv s) of
        None \<Rightarrow> Inl (UnknownId k)
      | Some conversation \<Rightarrow>
          Inr \<lparr>taskId = k, taskCurrentId = currentId (conv s), taskConversation = conversation,
               taskMessages = (if k = currentId (conv s) then liveMessages (msg s)
                               else messages conversation),
               taskSystemRole = (if k = currentId (conv s) then liveSystemInstruction (msg s)
                                 else systemInstruction conversation),
               taskContent = ''''\<rparr>)"

text \<open>One round of the \<open>while\<close> loop with \<open>done = false\<close>.\<close>

definition summaryChunk :: "string \<Rightarrow> SummaryTask \<times> App \<Rightarrow> SummaryTask \<times> App" where
  "summaryChunk v ts =
     (let task = fst ts; s = snd ts; content' = taskContent task @ v
      in (task\<lparr>taskContent := content'\<rparr>,
          s\<lparr>conv := addOrUpdate (taskId task) ((taskConversation task)\<lparr>title := content'\<rparr>)
                      (conv s)\<rparr>))"

text \<open>After the loop: \<open>if (id === currentId) setTitle(content)\<close>.\<close>

definition summaryDone :: "SummaryTask \<times> App \<Rightarrow> App" where
  "summaryDone ts =
     (let task = fst ts; s = snd ts
      in if taskId task = taskCurrentId task
         then s\<lparr>msg := setTitle (taskContent task) (msg s)\<rparr> else s)"

fun runEvents :: "event list \<Rightarrow> SummaryTask \<times> App \<Rightarrow> error + SummaryTask \<times> App" where
  "runEvents [] ts = Inr ts"
| "runEvents (Chunk v # evs) ts = runEvents evs (summaryChunk v ts)"
| "runEvents (Select k # evs) (task, s) =
     (case handleSelect k s of Inl e \<Rightarrow> Inl e | Inr s' \<Rightarrow> runEvents evs (task, s'))"

definition handleSummaryTitle :: "string \<Rightarrow> event list \<Rightarrow> App \<Rightarrow> error + App" where
  "handleSummaryTitle k evs s =
     (case summaryStart k s of
        Inl e \<Rightarrow> Inl e
      | Inr task \<Rightarrow>
          (case runEvents evs (task, s) of
             Inl e \<Rightarrow> Inl e
           | Inr ts \<Rightarrow> Inr (summaryDone ts)))"

text \<open>The text an event adds to \<open>content\<close>, and whether an event is a chunk.\<close>

fun chunkText :: "event \<Rightarrow> string" where
  "chunkText (Chunk v) = v"
| "chunkText (Select k) = ''''"

fun isChunk :: "event \<Rightarrow> bool" where
  "isChunk (Chunk v) = True"
| "isChunk (Select k) = False"

section \<open>Sidebar: search\<close>

text \<open>
  \<open>new RegExp(keyword.trim(), 'gi')\<close> is an object with a mutable \<open>lastIndex\<close>. Its
  compiled pattern enters as a matcher: \<open>rx s i\<close> is the end index of the leftmost match
  of the pattern in \<open>s\<close> that starts at index \<open>i\<close> or later, if there is one. With the
  flag \<open>g\<close>, \<open>test\<close> starts at \<open>lastIndex\<close>, stores the end of the match there, and
  resets it to 0 when there is no match (or \<open>lastIndex\<close> is beyond the string).
\<close>

type_synonym matcher = "string \<Rightarrow> nat \<Rightarrow> nat option"

definition regexTest :: "matcher \<Rightarrow> string \<Rightarrow> nat \<Rightarrow> bool \<times> nat" where
  "regexTest rx s lastIndex =
     (if length s < lastIndex then (False, 0)
      else case rx s lastIndex of None \<Rightarrow> (False, 0) | Some e \<Rightarrow> (True, e))"

text \<open>
  For a keyword without regular-expression syntax characters the matcher is a
  case-insensitive substring search (flag \<open>i\<close>: characters are compared after
  canonicalization, which on ASCII letters is upper-casing).
\<close>

definition canonicalize :: "char \<Rightarrow> char" where
  "canonicalize c =
     (case map_of (zip ''abcdefghijklmnopqrstuvwxyz'' ''ABCDEFGHIJKLMNOPQRSTUVWXYZ'') c of
        Some u \<Rightarrow> u
      | None \<Rightarrow> c)"

fun matchesAt :: "string \<Rightarrow> string \<Rightarrow> bool" where
  "matchesAt [] s = True"
| "matchesAt (p # ps) [] = False"
| "matchesAt (p # ps) (c # cs) = (canonicalize p = canonicalize c \<and> matchesAt ps cs)"

fun scanFrom :: "string \<Rightarrow> string \<Rightarrow> nat \<Rightarrow> nat option" where
  "scanFrom p [] i = (if matchesAt p [] then Some (i + length p) else None)"
| "scanFrom p (c # cs) i =
     (if matchesAt p (c # cs) then Some (i + length p) else scanFrom p cs (Suc i))"

definition literalMatcher :: "string \<Rightarrow> matcher" where
  "literalMatcher p s i = scanFrom p (drop i s) i"

definition isSpace :: "char \<Rightarrow> bool" where
  "isSpace c = (c \<in> set [CHR '' '', CHR 0x09, CHR 0x0A, CHR 0x0B, CHR 0x0C, CHR 0x0D])"

definition trim :: "string \<Rightarrow> string" where
  "trim s = rev (dropWhile isSpace (rev (dropWhile isSpace s)))"

text \<open>
  \<open>search\<close> stores the very objects of its input in the result (\<open>results[id] = item\<close>),
  so objects live in a heap: a Conversation object and a \<open>Record\<close> object are addressed
  by their index, and allocation appends.
\<close>

record Heap =
  conversationObjs :: "Conversation list"
  recordObjs :: "(string \<times> nat) list list"

definition setProperty :: "nat \<Rightarrow> string \<Rightarrow> nat \<Rightarrow> Heap \<Rightarrow> Heap" where
  "setProperty r k v h =
     h\<lparr>recordObjs := (recordObjs h)[r := AList.update k v (recordObjs h ! r)]\<rparr>"

text \<open>
  The loops of \<open>search\<close>, innermost first; the state is the heap and \<open>regex.lastIndex\<close>.
  \<open>part.text && regex.test(part.text)\<close> tests only a text that is present and not empty.
\<close>

fun partsLoop ::
  "matcher \<Rightarrow> nat \<Rightarrow> string \<Rightarrow> nat \<Rightarrow> Part list \<Rightarrow> Heap \<times> nat \<Rightarrow> Heap \<times> nat" where
  "partsLoop rx results k item [] (h, li) = (h, li)"
| "partsLoop rx results k item (part # ps) (h, li) =
     (case partText part of
        None \<Rightarrow> partsLoop rx results k item ps (h, li)
      | Some txt \<Rightarrow>
          if txt = '''' then partsLoop rx results k item ps (h, li)
          else (case regexTest rx txt li of
                  (b, li') \<Rightarrow>
                    partsLoop rx results k item ps
                      (if b then setProperty results k item h else h, li')))"

fun messagesLoop ::
  "matcher \<Rightarrow> nat \<Rightarrow> string \<Rightarrow> nat \<Rightarrow> Message list \<Rightarrow> Heap \<times> nat \<Rightarrow> Heap \<times> nat" where
  "messagesLoop rx results k item [] st = st"
| "messagesLoop rx results k item (message # ms) st =
     messagesLoop rx results k item ms (partsLoop rx results k item (parts message) st)"

fun entriesLoop ::
  "matcher \<Rightarrow> nat \<Rightarrow> (string \<times> nat) list \<Rightarrow> Heap \<times> nat \<Rightarrow> Heap \<times> nat" where
  "entriesLoop rx results [] st = st"
| "entriesLoop rx results ((k, item) # es) (h, li) =
     (case regexTest rx (title (conversationObjs h ! item)) li of
        (b1, li1) \<Rightarrow>
          (case (if b1 then (True, li1)
                 else regexTest rx (systemInstruction (conversationObjs h ! item)) li1) of
             (b, li2) \<Rightarrow>
               (let h1 = (if b then setProperty results k item h else h)
                in entriesLoop rx results es
                     (messagesLoop rx results k item (messages (conversationObjs h1 ! item))
                        (h1, li2)))))"

text \<open>
  \<open>search\<close>, with the address \<open>dat\<close> of \<open>data\<close>: it returns the address of
  \<open>results\<close> and the heap. The \<open>RegExp\<close> constructor of the runtime is an argument: it
  maps a pattern to its matcher, or to \<open>None\<close> where it throws a \<open>SyntaxError\<close>.
\<close>

definition search ::
  "(string \<Rightarrow> matcher option) \<Rightarrow> string \<Rightarrow> nat \<Rightarrow> Heap \<Rightarrow> (error + nat) \<times> Heap" where
  "search newRegExp keyword dat h =
     (let results = length (recordObjs h);
          h0 = h\<lparr>recordObjs := recordObjs h @ [[]]\<rparr>
      in case newRegExp (trim keyword) of
           None \<Rightarrow> (Inl SyntaxError, h0)
         | Some rx \<Rightarrow>
             (Inr results, fst (entriesLoop rx results (recordObjs h0 ! dat) (h0, 0))))"

text \<open>The constructor on the patterns that have no syntax characters.\<close>

definition literalRegExp :: "string \<Rightarrow> matcher option" where
  "literalRegExp p = Some (literalMatcher p)"

section \<open>Settings: model options\<close>

text \<open>
  \<open>Model\<close> of \<open>constant/model.ts\<close> is a module-level object that \<open>modelOptions\<close>
  assigns to; the view state holds it together with \<open>modelStore.models\<close>, the flag
  \<open>cachedModelList\<close> and the \<open>model\<close> field of the setting store (\<open>None\<close> for
  \<open>undefined\<close>).
\<close>

record ModelItem =
  name :: string
  displayName :: string

type_synonym ModelTable = "(string \<times> string) list"

definition Model :: ModelTable where
  "Model =
     [(''gemini-1.5-pro'', ''Gemini 1.5 Pro''),
      (''gemini-1.5-pro-latest'', ''Gemini 1.5 Pro Latest''),
      (''gemini-1.5-flash'', ''Gemini 1.5 Flash''),
      (''gemini-1.5-flash-latest'', ''Gemini 1.5 Flash Latest''),
      (''gemini-1.5-flash-8b'', ''Gemini 1.5 Flash-8B''),
      (''gemini-1.5-flash-8b-latest'', ''Gemini 1.5 Flash-8B Latest''),
      (''gemini-1.0-pro-vision'', ''Gemini 1.0 Pro Vision''),
      (''gemini-1.0-pro-vision-latest'', ''Gemini 1.0 Pro Vision Latest''),
      (''gemini-1.0-pro'', ''Gemini 1.0 Pro''),
      (''gemini-1.0-pro-latest'', ''Gemini 1.0 Pro Latest''),
      (''gemini-pro-vision'', ''Gemini Pro Vision''),
      (''gemini-pro'', ''Gemini Pro'')]"

record SettingView =
  modelTable :: ModelTable
  storeModels :: "ModelItem list"
  cachedModelList :: bool
  settingModel :: "string option"

definition startsWith :: "string \<Rightarrow> string \<Rightarrow> bool" where
  "startsWith p s = (take (length p) s = p)"

text \<open>\<open>s.replace(pat, rep)\<close> with a string pattern replaces the first occurrence.\<close>

fun replaceFirst :: "string \<Rightarrow> string \<Rightarrow> string \<Rightarrow> string" where
  "replaceFirst pat rep [] = (if pat = [] then rep else [])"
| "replaceFirst pat rep (c # cs) =
     (if startsWith pat (c # cs) then rep @ drop (length pat) (c # cs)
      else c # replaceFirst pat rep cs)"

fun splitOn :: "char \<Rightarrow> string \<Rightarrow> string list" where
  "splitOn sep [] = [[]]"
| "splitOn sep (c # cs) =
     (if c = sep then [] # splitOn sep cs
      else (case splitOn sep cs of [] \<Rightarrow> [[c]] | w # ws \<Rightarrow> (c # w) # ws))"

text \<open>
  The \<open>forEach\<close> over \<open>modelStore.models\<close>; \<open>models\<close> is \<open>values(Model)\<close>, taken
  before the loop.
\<close>

fun mergeLoop :: "string list \<Rightarrow> ModelItem list \<Rightarrow> ModelTable \<Rightarrow> ModelTable" where
  "mergeLoop models [] tbl = tbl"
| "mergeLoop models (item # items) tbl =
     (let modelName = replaceFirst ''models/'' '''' (name item)
      in mergeLoop models items
           (if modelName \<notin> set models then AList.update modelName (displayName item) tbl
            else tbl))"

fun pushMissing :: "string list \<Rightarrow> string list \<Rightarrow> string list" where
  "pushMissing [] modelList = modelList"
| "pushMissing (n # ns) modelList =
     pushMissing ns (if n \<notin> set modelList then modelList @ [n] else modelList)"

text \<open>
  The \<open>forEach\<close> over \<open>userModels\<close>, its body first; the state is \<open>modelList\<close>,
  \<open>defaultModel\<close> and the \<open>model\<close> field that \<open>update({ model: name })\<close> writes.
\<close>

definition userModelStep ::
  "string list \<Rightarrow> string \<Rightarrow> string list \<times> string \<times> string option \<Rightarrow>
   string list \<times> string \<times> string option" where
  "userModelStep defaultModelList modelName st =
     (case st of (modelList, defaultModel, sm) \<Rightarrow>
        if modelName = ''all'' \<or> modelName = ''+all''
        then (pushMissing defaultModelList modelList, defaultModel, sm)
        else if modelName = ''-all''
        then (filter (\<lambda>n. n \<notin> set defaultModelList) modelList, defaultModel, sm)
        else if startsWith ''-'' modelName
        then (filter (\<lambda>n. n \<noteq> drop 1 modelName) modelList, defaultModel, sm)
        else if startsWith ''@'' modelName
        then (if drop 1 modelName \<notin> set modelList then modelList @ [drop 1 modelName]
              else modelList,
              drop 1 modelName, Some (drop 1 modelName))
        else (modelList @ [if startsWith ''+'' modelName then drop 1 modelName else modelName],
              defaultModel, sm))"

fun userModelsLoop ::
  "string list \<Rightarrow> string list \<Rightarrow> string list \<times> string \<times> string option \<Rightarrow>
   string list \<times> string \<times> string option" where
  "userModelsLoop defaultModelList [] st = st"
| "userModelsLoop defaultModelList (modelName # ms) st =
     userModelsLoop defaultModelList ms (userModelStep defaultModelList modelName st)"

text \<open>
  \<open>GEMINI_MODEL_LIST ? GEMINI_MODEL_LIST.split(',') : []\<close>; the environment variable is
  an argument (\<open>None\<close> when it is not set).
\<close>

definition userModelsOf :: "string option \<Rightarrow> string list" where
  "userModelsOf env =
     (case env of None \<Rightarrow> [] | Some v \<Rightarrow> if v = '''' then [] else splitOn CHR '','' v)"

definition modelOptions :: "string option \<Rightarrow> SettingView \<Rightarrow> string list \<times> SettingView" where
  "modelOptions env s =
     (let tbl = (if 0 < length (storeModels s)
                 then mergeLoop (map snd (modelTable s)) (storeModels s) (modelTable s)
                 else modelTable s);
          defaultModelList = map fst tbl;
          userModels = userModelsOf env
      in case userModelsLoop defaultModelList userModels
                ([], ''gemini-1.5-flash-latest'', settingModel s) of
           (modelList, defaultModel, sm) \<Rightarrow>
             (let models = (if 0 < length modelList then modelList else defaultModelList)
              in (models,
                  s\<lparr>modelTable := tbl,
                    settingModel := (if defaultModel \<notin> set models
                                     then (case models of [] \<Rightarrow> None | m # _ \<Rightarrow> Some m)
                                     else sm)\<rparr>)))"

text \<open>
  Modelled from the spec: \<open>update\<close> of the model store (\<open>store/model\<close> is imported by
  the settings view but is not among the source files) replaces the stored sequence of
  models.
\<close>

definition modelStoreUpdate :: "ModelItem list \<Rightarrow> SettingView \<Rightarrow> SettingView" where
  "modelStoreUpdate models s = s\<lparr>storeModels := models\<rparr>"

text \<open>
  The layout effect of \<open>Setting\<close>, first the callback of \<open>fetchModels(...).then\<close>;
  \<open>fetched\<close> is what the model-list service resolves to.
\<close>

definition fetchModelsThen :: "ModelItem list \<Rightarrow> SettingView \<Rightarrow> SettingView" where
  "fetchModelsThen models s =
     (if 0 < length models then (modelStoreUpdate models s)\<lparr>cachedModelList := True\<rparr> else s)"

definition openEffect :: "bool \<Rightarrow> ModelItem list \<Rightarrow> SettingView \<Rightarrow> SettingView" where
  "openEffect opn fetched s =
     (if opn \<and> \<not> cachedModelList s then fetchModelsThen fetched s else s)"

text \<open>
  Modelled from the spec: the view state at the start, before any fetch: the model store
  (\<open>store/model\<close>) is empty, and the Model table is the built-in one. The states of the
  view are those that the layout effect and \<open>modelOptions\<close> lead to from there.
\<close>

definition initialView :: SettingView where
  "initialView = \<lparr>modelTable = Model, storeModels = [], cachedModelList = False,
                  settingModel = Some ''gemini-1.5-flash-latest''\<rparr>"

inductive viewReachable :: "SettingView \<Rightarrow> bool" where
  start: "viewReachable initialView"
| effect: "viewReachable s \<Longrightarrow> viewReachable (openEffect opn fetched s)"
| options: "viewReachable s \<Longrightarrow> viewReachable (snd (modelOptions env s))"

section \<open>Settings: the validation schema\<close>

text \<open>
  A form value is a JavaScript value. A number is a double: not-a-number, an infinity, or
  a finite value, which is a real number; the schema only compares numbers, and
  comparison of finite doubles is comparison of the reals they denote.
\<close>

datatype jsnumber = NaN | PosInfinity | NegInfinity | Finite real

datatype jsvalue = Undefined | Null | Boolean bool | Number jsnumber | String string

text \<open>
  A zod schema maps a value to the parsed value, or to \<open>None\<close> when it raises an issue.
  \<open>z.number()\<close> refuses not-a-number; \<open>.optional()\<close> passes \<open>undefined\<close> through;
  \<open>.default(d)\<close> parses \<open>d\<close> in place of \<open>undefined\<close>. Whether a string is a URL is
  decided by the runtime's URL parser, an argument here.
\<close>

type_synonym zod = "jsvalue \<Rightarrow> jsvalue option"

definition gte :: "real \<Rightarrow> jsnumber \<Rightarrow> bool" where
  "gte lo n = (case n of Finite x \<Rightarrow> lo \<le> x | PosInfinity \<Rightarrow> True | _ \<Rightarrow> False)"

definition lte :: "real \<Rightarrow> jsnumber \<Rightarrow> bool" where
  "lte hi n = (case n of Finite x \<Rightarrow> x \<le> hi | NegInfinity \<Rightarrow> True | _ \<Rightarrow> False)"

definition zString :: zod where
  "zString v = (case v of String s \<Rightarrow> Some v | _ \<Rightarrow> None)"

definition zUrl :: "(string \<Rightarrow> bool) \<Rightarrow> zod" where
  "zUrl isUrl v = (case v of String s \<Rightarrow> if isUrl s then Some v else None | _ \<Rightarrow> None)"

definition zNumberGteLte :: "real \<Rightarrow> real \<Rightarrow> zod" where
  "zNumberGteLte lo hi v =
     (case v of Number n \<Rightarrow> if n \<noteq> NaN \<and> gte lo n \<and> lte hi n then Some v else None
      | _ \<Rightarrow> None)"

definition zEnum :: "string list \<Rightarrow> zod" where
  "zEnum opts v = (case v of String s \<Rightarrow> if s \<in> set opts then Some v else None | _ \<Rightarrow> None)"

definition zBoolean :: zod where
  "zBoolean v = (case v of Boolean b \<Rightarrow> Some v | _ \<Rightarrow> None)"

definition zOptional :: "zod \<Rightarrow> zod" where
  "zOptional p v = (if v = Undefined then Some Undefined else p v)"

definition zDefault :: "jsvalue \<Rightarrow> zod \<Rightarrow> zod" where
  "zDefault d p v = (if v = Undefined then p d else p v)"

record FormValues =
  password :: jsvalue
  assistantIndexUrl :: jsvalue
  lang :: jsvalue
  apiKey :: jsvalue
  apiProxy :: jsvalue
  uploadProxy :: jsvalue
  model :: jsvalue
  maxHistoryLength :: jsvalue
  topP :: jsvalue
  topK :: jsvalue
  temperature :: jsvalue
  maxOutputTokens :: jsvalue
  safety :: jsvalue
  sttLang :: jsvalue
  ttsLang :: jsvalue
  ttsVoice :: jsvalue
  autoStopRecord :: jsvalue

definition formSchema :: "(string \<Rightarrow> bool) \<Rightarrow> FormValues \<Rightarrow> FormValues option" where
  "formSchema isUrl raw =
     Option.bind (zOptional zString (password raw)) (\<lambda>v1.
     Option.bind (zUrl isUrl (assistantIndexUrl raw)) (\<lambda>v2.
     Option.bind (zOptional zString (lang raw)) (\<lambda>v3.
     Option.bind (zOptional zString (apiKey raw)) (\<lambda>v4.
     Option.bind (zOptional (zUrl isUrl) (apiProxy raw)) (\<lambda>v5.
     Option.bind (zOptional (zUrl isUrl) (uploadProxy raw)) (\<lambda>v6.
     Option.bind (zString (model raw)) (\<lambda>v7.
     Option.bind (zDefault (Number (Finite 0)) (zOptional (zNumberGteLte 0 50))
                    (maxHistoryLength raw)) (\<lambda>v8.
     Option.bind (zDefault (Number (Finite 0.95)) (zNumberGteLte 0 1) (topP raw)) (\<lambda>v9.
     Option.bind (zDefault (Number (Finite 40)) (zNumberGteLte 0 128) (topK raw)) (\<lambda>v10.
     Option.bind (zDefault (Number (Finite 1)) (zNumberGteLte 0 1) (temperature raw)) (\<lambda>v11.
     Option.bind (zDefault (Number (Finite 8192)) (zNumberGteLte 0 8192)
                    (maxOutputTokens raw)) (\<lambda>v12.
     Option.bind (zDefault (String ''none'') (zEnum [''none'', ''low'', ''middle'', ''high''])
                    (safety raw)) (\<lambda>v13.
     Option.bind (zOptional zString (sttLang raw)) (\<lambda>v14.
     Option.bind (zOptional zString (ttsLang raw)) (\<lambda>v15.
     Option.bind (zOptional zString (ttsVoice raw)) (\<lambda>v16.
     Option.bind (zDefault (Boolean False) zBoolean (autoStopRecord raw)) (\<lambda>v17.
     Some \<lparr>password = v1, assistantIndexUrl = v2, lang = v3, apiKey = v4, apiProxy = v5,
           uploadProxy = v6, model = v7, maxHistoryLength = v8, topP = v9, topK = v10,
           temperature = v11, maxOutputTokens = v12, safety = v13, sttLang = v14,
           ttsLang = v15, ttsVoice = v16, autoStopRecord = v17\<rparr>)))))))))))))))))"

text \<open>
  \<open>form.handleSubmit(handleSubmit)\<close>: the resolver validates the form values, and only
  on success \<open>handleSubmit\<close> runs, which passes the parsed values to \<open>update\<close> of the
  setting store (an argument: the store module is not among the source files).
\<close>

definition handleSubmit :: "(FormValues \<Rightarrow> 'st \<Rightarrow> 'st) \<Rightarrow> FormValues \<Rightarrow> 'st \<Rightarrow> 'st" where
  "handleSubmit update vals st = update vals st"

definition formHandleSubmit ::
  "(string \<Rightarrow> bool) \<Rightarrow> (FormValues \<Rightarrow> 'st \<Rightarrow> 'st) \<Rightarrow> FormValues \<Rightarrow> 'st \<Rightarrow> 'st" where
  "formHandleSubmit isUrl update raw st =
     (case formSchema isUrl raw of None \<Rightarrow> st | Some vals \<Rightarrow> handleSubmit update vals st)"

text \<open>
  A value within the bounds of a numeric field, and a number outside of them (a finite
  one beyond a bound, an infinity, or not-a-number).
\<close>

definition between :: "real \<Rightarrow> real \<Rightarrow> jsvalue \<Rightarrow> bool" where
  "between lo hi v =
     (case v of Number n \<Rightarrow> (case n of Finite x \<Rightarrow> lo \<le> x \<and> x \<le> hi | _ \<Rightarrow> False)
      | _ \<Rightarrow> False)"

definition outside :: "real \<Rightarrow> real \<Rightarrow> jsvalue \<Rightarrow> bool" where
  "outside lo hi v =
     (case v of Number n \<Rightarrow> (case n of Finite x \<Rightarrow> x < lo \<or> hi < x | _ \<Rightarrow> True)
      | _ \<Rightarrow> False)"

section \<open>Example states\<close>

text \<open>
  The state after a first \<open>newConversation\<close> whose random bytes select the id
  \<open>1234567890ab\<close>, and that state after the title of the open conversation was edited.
\<close>

definition firstBytes :: "nat list" where
  "firstBytes = [0, 1, 2, 3, 4, 5, 6, 7, 8, 9, 10, 11]"

definition createdApp :: App where
  "createdApp =
     \<lparr>conv = \<lparr>conversationList = [(''default'', emptyConversation),
                                    (''1234567890ab'', emptyConversation)],
              pinned = [], currentId = ''1234567890ab''\<rparr>,
      msg = msg initialApp\<rparr>"

definition draftApp :: App where
  "draftApp = editTitle ''draft'' createdApp"

text \<open>Two titled conversations \<open>a\<close> and \<open>b\<close>, with \<open>a\<close> or with \<open>b\<close> open.\<close>

definition trip :: Conversation where
  "trip = emptyConversation\<lparr>title := ''Trip''\<rparr>"

definition budget :: Conversation where
  "budget = emptyConversation\<lparr>title := ''Budget''\<rparr>"

definition tripActive :: App where
  "tripActive =
     \<lparr>conv = \<lparr>conversationList = [(''default'', emptyConversation), (''a'', trip), (''b'', budget)],
              pinned = [], currentId = ''a''\<rparr>,
      msg = restore trip (msg initialApp)\<rparr>"

definition budgetActive :: App where
  "budgetActive =
     \<lparr>conv = \<lparr>conversationList = [(''default'', emptyConversation), (''a'', trip), (''b'', budget)],
              pinned = [], currentId = ''b''\<rparr>,
      msg = restore budget (msg initialApp)\<rparr>"

text \<open>
  A conversation that matches \<open>hello\<close> in a message part only, one that matches in its
  title, and the map of the two in either order of insertion.
\<close>

definition helloThere :: Conversation where
  "helloThere =
     emptyConversation\<lparr>title := ''notes'',
       messages := [\<lparr>role = ''user'', parts = [\<lparr>partText = Some ''hello there''\<rparr>]\<rparr>]\<rparr>"

definition helloWorld :: Conversation where
  "helloWorld = emptyConversation\<lparr>title := ''Hello World''\<rparr>"

definition messageFirst :: Heap where
  "messageFirst =
     \<lparr>conversationObjs = [helloThere, helloWorld], recordObjs = [[(''a'', 0), (''b'', 1)]]\<rparr>"

definition titleFirst :: Heap where
  "titleFirst =
     \<lparr>conversationObjs = [helloThere, helloWorld], recordObjs = [[(''b'', 1), (''a'', 0)]]\<rparr>"

text \<open>Form values the schema accepts, and the same with \<open>topP\<close> beyond its bound.\<close>

definition goodForm :: FormValues where
  "goodForm =
     \<lparr>password = Undefined, assistantIndexUrl = String ''https://example.com/index'',
      lang = Undefined, apiKey = String ''key'', apiProxy = Undefined,
      uploadProxy = Undefined, model = String ''gemini-pro'', maxHistoryLength = Undefined,
      topP = Number (Finite 0.5), topK = Number (Finite 40), temperature = Undefined,
      maxOutputTokens = Number (Finite 1024), safety = String ''low'', sttLang = Undefined,
      ttsLang = Undefined, ttsVoice = Undefined, autoStopRecord = Boolean True\<rparr>"

definition badForm :: FormValues where
  "badForm = goodForm\<lparr>topP := Number (Finite 1.5)\<rparr>"

section \<open>Properties of the swap protocol\<close>

lemma query_addOrUpdate:
  "query k (addOrUpdate k' c s) = (if k = k' then Some c else query k s)"
  by (simp add: query_def addOrUpdate_def AList.update_conv')

lemma query_setCurrentId: "query k (setCurrentId k' s) = query k s"
  by (simp add: query_def setCurrentId_def)

lemma currentId_setCurrentId: "currentId (setCurrentId k s) = k"
  by (simp add: setCurrentId_def)

lemma backup_restore: "backup (restore c m) = c"
  by (simp add: backup_def restore_def)

lemma created_from_initial: "newConversation firstBytes initialApp = Some createdApp"
  by (simp add: newConversation_def nanoid_def alphabet_def idSize_def
      firstBytes_def createdApp_def initialApp_def addOrUpdate_def setCurrentId_def
      backup_def restore_def emptyConversation_def Let_def)

text \<open>
  Claim C1, as amended. For every state and every target id that has an entry in the
  Conversation List, \<open>handleSelect\<close> succeeds, the target becomes current, the entry at
  the old current id holds the snapshot of the prior live fields, and the live fields are
  the prior entry at the target when the target differs from the old current id, and the
  prior live fields when the target is the old current id (the entry is looked up after
  the snapshot was written).
\<close>

theorem handleSelect_swap:
  assumes "target \<in> fst ` set (conversationList (conv s))"
  shows "\<exists>s'. handleSelect target s = Inr s'
       \<and> currentId (conv s') = target
       \<and> query (currentId (conv s)) (conv s') = Some (backup (msg s))
       \<and> Some (backup (msg s')) =
           (if target = currentId (conv s) then Some (backup (msg s))
            else query target (conv s))"
proof -
  from assms have "map_of (conversationList (conv s)) target \<noteq> None"
    by (simp add: map_of_eq_None_iff)
  then obtain c where c: "query target (conv s) = Some c"
    by (auto simp: query_def)
  show ?thesis
    by (simp add: handleSelect_def Let_def query_addOrUpdate query_setCurrentId c
        backup_restore currentId_setCurrentId)
qed

theorem handleSelect_swap_witness:
  "''b'' \<in> fst ` set (conversationList (conv tripActive))
   \<and> (\<exists>s'. handleSelect ''b'' tripActive = Inr s'
         \<and> currentId (conv s') = ''b''
         \<and> query ''a'' (conv s') = Some trip
         \<and> backup (msg s') = budget)"
proof -
  have h: "''b'' \<in> fst ` set (conversationList (conv tripActive))"
    by (simp add: tripActive_def)
  have c: "currentId (conv tripActive) = ''a''"
    and b: "backup (msg tripActive) = trip"
    and q: "query ''b'' (conv tripActive) = Some budget"
    by (simp_all add: tripActive_def backup_restore query_def)
  from handleSelect_swap [OF h] h show ?thesis
    unfolding c b q by simp
qed

text \<open>
  The claim as stated fails when the target is the current conversation and the live
  fields were edited since the last backup: after \<open>newConversation\<close> and \<open>editTitle\<close>,
  selecting the open conversation leaves the live title \<open>draft\<close>, while the prior entry
  of the list had the empty title.
\<close>

theorem handleSelect_current_counterexample:
  "newConversation firstBytes initialApp = Some createdApp
   \<and> draftApp = editTitle ''draft'' createdApp
   \<and> ''1234567890ab'' \<in> fst ` set (conversationList (conv draftApp))
   \<and> query ''1234567890ab'' (conv draftApp) = Some emptyConversation
   \<and> handleSelect ''1234567890ab'' draftApp =
       Inr \<lparr>conv = \<lparr>conversationList =
                        [(''default'', emptyConversation),
                         (''1234567890ab'', emptyConversation\<lparr>title := ''draft''\<rparr>)],
                      pinned = [], currentId = ''1234567890ab''\<rparr>,
            msg = msg draftApp\<rparr>
   \<and> backup (msg draftApp) = emptyConversation\<lparr>title := ''draft''\<rparr>
   \<and> emptyConversation\<lparr>title := ''draft''\<rparr> \<noteq> emptyConversation"
proof -
  have "handleSelect ''1234567890ab'' draftApp =
       Inr \<lparr>conv = \<lparr>conversationList =
                        [(''default'', emptyConversation),
                         (''1234567890ab'', emptyConversation\<lparr>title := ''draft''\<rparr>)],
                      pinned = [], currentId = ''1234567890ab''\<rparr>,
            msg = msg draftApp\<rparr>"
    by (simp add: draftApp_def createdApp_def editTitle_def initialApp_def handleSelect_def
        Let_def addOrUpdate_def query_def setCurrentId_def backup_def restore_def
        setTitle_def emptyConversation_def)
  moreover have "backup (msg draftApp) = emptyConversation\<lparr>title := ''draft''\<rparr>"
    by (simp add: draftApp_def createdApp_def editTitle_def initialApp_def backup_def
        restore_def setTitle_def emptyConversation_def)
  moreover have "query ''1234567890ab'' (conv draftApp) = Some emptyConversation"
    by (simp add: draftApp_def createdApp_def editTitle_def query_def)
  moreover have "''1234567890ab'' \<in> fst ` set (conversationList (conv draftApp))"
    by (simp add: draftApp_def createdApp_def editTitle_def)
  moreover have "emptyConversation\<lparr>title := ''draft''\<rparr> \<noteq> emptyConversation"
    by (simp add: emptyConversation_def)
  ultimately show ?thesis
    using created_from_initial by (simp add: draftApp_def)
qed

lemma select_budget: "handleSelect ''b'' tripActive = Inr budgetActive"
  by (simp add: handleSelect_def tripActive_def budgetActive_def trip_def budget_def
      initialApp_def query_def addOrUpdate_def setCurrentId_def backup_def restore_def
      emptyConversation_def Let_def)

text \<open>
  A switch changes no entry of the Conversation List but the one of the old current id,
  and it leaves the pinned set as it is.
\<close>

theorem handleSelect_frame:
  assumes "handleSelect target s = Inr s'"
  shows "pinned (conv s') = pinned (conv s)
       \<and> (\<forall>k. k \<noteq> currentId (conv s) \<longrightarrow> query k (conv s') = query k (conv s))"
proof -
  let ?cs1 = "addOrUpdate (currentId (conv s)) (backup (msg s)) (conv s)"
  from assms obtain c where s': "s' = \<lparr>conv = setCurrentId target ?cs1, msg = restore c (msg s)\<rparr>"
    by (auto simp: handleSelect_def Let_def split: option.splits)
  have "pinned (conv s') = pinned (conv s)"
    by (simp add: s' setCurrentId_def addOrUpdate_def)
  moreover have "query k (conv s') = query k (conv s)" if "k \<noteq> currentId (conv s)" for k
    using that by (simp add: s' query_setCurrentId query_addOrUpdate)
  ultimately show ?thesis by blast
qed

theorem handleSelect_frame_witness:
  "handleSelect ''b'' tripActive = Inr budgetActive
   \<and> pinned (conv budgetActive) = pinned (conv tripActive)
   \<and> query ''default'' (conv budgetActive) = query ''default'' (conv tripActive)"
proof -
  have c: "''default'' \<noteq> currentId (conv tripActive)"
    by (simp add: tripActive_def)
  from handleSelect_frame [OF select_budget] c select_budget show ?thesis
    by blast
qed

lemma nanoid_props:
  assumes "nanoid bytes = Some i"
  shows "length i = idSize \<and> set i \<subseteq> set alphabet"
proof -
  let ?cs = "map (\<lambda>b. alphabet ! (b mod 64)) (filter (\<lambda>b. b mod 64 < length alphabet) bytes)"
  from assms have i: "i = take idSize ?cs" and le: "idSize \<le> length ?cs"
    by (auto simp: nanoid_def Let_def split: if_splits)
  have "set ?cs \<subseteq> set alphabet" by auto
  with set_take_subset [of idSize ?cs] have "set i \<subseteq> set alphabet" unfolding i by blast
  moreover have "length i = idSize" using le unfolding i by simp
  ultimately show ?thesis by simp
qed

text \<open>
  Claim C6. Given a random supply with 12 usable bytes, \<open>newConversation\<close> returns: the
  generated id has 12 characters, all of the alphabet; the Conversation List is the old
  one with the live snapshot written under the old current id and then the empty
  Conversation written under the new id, whether or not that id was already a key; the
  new id is current, the pinned set is unchanged, and the live fields are those of the
  empty Conversation.
\<close>

theorem newConversation_creates:
  assumes "idSize \<le> length (filter (\<lambda>b. b mod 64 < length alphabet) rnd)"
  shows "\<exists>nid. nanoid rnd = Some nid \<and> length nid = 12 \<and> set nid \<subseteq> set alphabet
       \<and> newConversation rnd s =
           Some \<lparr>conv = \<lparr>conversationList =
                           AList.update nid
                             \<lparr>title = '''', messages = [],
                              summary = \<lparr>ids = [], content = ''''\<rparr>,
                              systemInstruction = '''', chatLayout = ''doc''\<rparr>
                             (AList.update (currentId (conv s)) (backup (msg s))
                                (conversationList (conv s))),
                         pinned = pinned (conv s), currentId = nid\<rparr>,
                 msg = restore \<lparr>title = '''', messages = [],
                                summary = \<lparr>ids = [], content = ''''\<rparr>,
                                systemInstruction = '''', chatLayout = ''doc''\<rparr> (msg s)\<rparr>
       \<and> backup (restore \<lparr>title = '''', messages = [],
                           summary = \<lparr>ids = [], content = ''''\<rparr>,
                           systemInstruction = '''', chatLayout = ''doc''\<rparr> (msg s))
           = \<lparr>title = '''', messages = [], summary = \<lparr>ids = [], content = ''''\<rparr>,
              systemInstruction = '''', chatLayout = ''doc''\<rparr>"
proof -
  from assms obtain nid where n: "nanoid rnd = Some nid"
    by (simp add: nanoid_def Let_def)
  from nanoid_props [OF n]
  have "length nid = 12" "set nid \<subseteq> set alphabet" by (simp_all add: idSize_def)
  then show ?thesis using n
    by (simp add: newConversation_def Let_def addOrUpdate_def setCurrentId_def backup_restore)
qed

text \<open>
  The theorem at a supply that repeats an id: in \<open>draftApp\<close> the conversation
  \<open>1234567890ab\<close> is open with the live title \<open>draft\<close>; the same bytes generate the
  same id, and its entry ends up empty.
\<close>

theorem newConversation_creates_witness:
  "idSize \<le> length (filter (\<lambda>b. b mod 64 < length alphabet) firstBytes)
   \<and> nanoid firstBytes = Some ''1234567890ab''
   \<and> newConversation firstBytes draftApp = Some createdApp"
proof -
  have h: "idSize \<le> length (filter (\<lambda>b. b mod 64 < length alphabet) firstBytes)"
    by (simp add: idSize_def alphabet_def firstBytes_def)
  have n: "nanoid firstBytes = Some ''1234567890ab''"
    by (simp add: nanoid_def alphabet_def idSize_def firstBytes_def Let_def)
  have d: "conversationList (conv draftApp) =
             [(''default'', emptyConversation), (''1234567890ab'', emptyConversation)]"
    "currentId (conv draftApp) = ''1234567890ab''" "pinned (conv draftApp) = []"
    "restore emptyConversation (msg draftApp) = msg initialApp"
    by (simp_all add: draftApp_def createdApp_def editTitle_def initialApp_def restore_def
        setTitle_def)
  from newConversation_creates [OF h, of draftApp] n d h show ?thesis
    by (simp add: createdApp_def emptyConversation_def)
qed

section \<open>Properties of the rendered rows\<close>

lemma splitEntries_filter:
  "splitEntries pins es (lst, pl) =
     (lst @ map (\<lambda>e. \<lparr>itemId = fst e, itemConversation = snd e\<rparr>)
              (filter (\<lambda>e. fst e \<noteq> ''default'' \<and> fst e \<notin> set pins) es),
      pl @ map (\<lambda>e. \<lparr>itemId = fst e, itemConversation = snd e\<rparr>)
              (filter (\<lambda>e. fst e \<noteq> ''default'' \<and> fst e \<in> set pins) es))"
  by (induction es arbitrary: lst pl) auto

lemma map_itemId_filter:
  "map itemId (map (\<lambda>e. \<lparr>itemId = fst e, itemConversation = snd e\<rparr>)
                 (filter (\<lambda>e. P (fst e)) es))
   = filter P (map fst es)"
  by (induction es) auto

text \<open>
  Claim C7. Every row the sidebar renders shows the title it is given when that title is
  not empty, and the localized string \<open>t('chatAnything')\<close> when it is empty; and every
  row but that of the reserved conversation is given the stored title of the entry of
  its id in the map the sidebar renders.
\<close>

theorem item_title:
  assumes "row \<in> set (sidebarRows t conversations cl pins cur)"
  shows "(propTitle row \<noteq> '''' \<longrightarrow> conversationTitle t row = propTitle row)
       \<and> (propTitle row = '''' \<longrightarrow> conversationTitle t row = t ''chatAnything'')
       \<and> (propId row \<noteq> ''default'' \<longrightarrow>
            (\<exists>c. (propId row, c) \<in> set (sidebarSources conversations cl)
                 \<and> propTitle row = title c))"
proof -
  have "conversationTitle t row = (if propTitle row = '''' then t ''chatAnything'' else propTitle row)"
    by (simp add: conversationTitle_def)
  moreover have "\<exists>c. (propId row, c) \<in> set (sidebarSources conversations cl)
                 \<and> propTitle row = title c" if "propId row \<noteq> ''default''"
    using assms that
    by (auto simp: sidebarRows_def derivedLists_def splitEntries_filter defaultRow_def
        itemRow_def)
  ultimately show ?thesis by simp
qed

theorem item_title_witness:
  "sidebarRows (\<lambda>k. ''Chat anything'')
     None [(''default'', emptyConversation), (''a'', trip), (''x'', emptyConversation)]
     [''a''] ''x''
     = [\<lparr>propId = ''default'', propTitle = ''Chat anything'', propPinned = False,
          propIsActive = False\<rparr>,
        \<lparr>propId = ''a'', propTitle = ''Trip'', propPinned = True, propIsActive = False\<rparr>,
        \<lparr>propId = ''x'', propTitle = '''', propPinned = False, propIsActive = True\<rparr>]
   \<and> conversationTitle (\<lambda>k. ''Chat anything'')
        \<lparr>propId = ''a'', propTitle = ''Trip'', propPinned = True, propIsActive = False\<rparr>
       = ''Trip''
   \<and> conversationTitle (\<lambda>k. ''Chat anything'')
        \<lparr>propId = ''x'', propTitle = '''', propPinned = False, propIsActive = True\<rparr>
       = ''Chat anything''"
proof -
  let ?t = "\<lambda>k::string. ''Chat anything''"
  let ?cl = "[(''default'', emptyConversation), (''a'', trip), (''x'', emptyConversation)]"
  let ?a = "\<lparr>propId = ''a'', propTitle = ''Trip'', propPinned = True, propIsActive = False\<rparr>"
  let ?x = "\<lparr>propId = ''x'', propTitle = '''', propPinned = False, propIsActive = True\<rparr>"
  have e: "sidebarRows ?t None ?cl [''a''] ''x''
     = [\<lparr>propId = ''default'', propTitle = ''Chat anything'', propPinned = False,
          propIsActive = False\<rparr>, ?a, ?x]"
    by (simp add: sidebarRows_def derivedLists_def sidebarSources_def defaultRow_def
        itemRow_def trip_def emptyConversation_def)
  have a: "?a \<in> set (sidebarRows ?t None ?cl [''a''] ''x'')"
    and x: "?x \<in> set (sidebarRows ?t None ?cl [''a''] ''x'')"
    unfolding e by simp_all
  from item_title [OF a] item_title [OF x] e show ?thesis by simp
qed

text \<open>
  Claim C9. For a map with one entry per key, the ids of the pinned list are exactly the
  keys other than \<open>default\<close> that are in the pinned set, the ids of the conversation
  list are exactly the keys other than \<open>default\<close> that are not, and no id occurs twice
  in the two lists together; so each key but \<open>default\<close> is rendered in exactly one
  list, once, and \<open>default\<close> in neither.
\<close>

theorem lists_partition:
  assumes "distinct (map fst (sidebarSources conversations cl))"
    and "derivedLists conversations cl pins = (lst, pl)"
  shows "set (map itemId pl) =
           {k \<in> fst ` set (sidebarSources conversations cl). k \<noteq> ''default'' \<and> k \<in> set pins}
       \<and> set (map itemId lst) =
           {k \<in> fst ` set (sidebarSources conversations cl). k \<noteq> ''default'' \<and> k \<notin> set pins}
       \<and> distinct (map itemId (lst @ pl))
       \<and> ''default'' \<notin> set (map itemId (lst @ pl))"
proof -
  let ?es = "sidebarSources conversations cl"
  have l: "map itemId lst = filter (\<lambda>k. k \<noteq> ''default'' \<and> k \<notin> set pins) (map fst ?es)"
    using assms(2) map_itemId_filter [of "\<lambda>k. k \<noteq> ''default'' \<and> k \<notin> set pins" ?es]
    by (auto simp: derivedLists_def splitEntries_filter)
  have p: "map itemId pl = filter (\<lambda>k. k \<noteq> ''default'' \<and> k \<in> set pins) (map fst ?es)"
    using assms(2) map_itemId_filter [of "\<lambda>k. k \<noteq> ''default'' \<and> k \<in> set pins" ?es]
    by (auto simp: derivedLists_def splitEntries_filter)
  show ?thesis using assms(1) unfolding map_append l p by auto
qed

theorem lists_partition_witness:
  "distinct (map fst (sidebarSources None
      [(''default'', emptyConversation), (''a'', trip), (''b'', budget)]))
   \<and> derivedLists None [(''default'', emptyConversation), (''a'', trip), (''b'', budget)] [''b'']
      = ([\<lparr>itemId = ''a'', itemConversation = trip\<rparr>],
         [\<lparr>itemId = ''b'', itemConversation = budget\<rparr>])
   \<and> set (map itemId [\<lparr>itemId = ''b'', itemConversation = budget\<rparr>]) = {''b''}
   \<and> set (map itemId [\<lparr>itemId = ''a'', itemConversation = trip\<rparr>]) = {''a''}"
proof -
  let ?cl = "[(''default'', emptyConversation), (''a'', trip), (''b'', budget)]"
  have d: "distinct (map fst (sidebarSources None ?cl))"
    by (simp add: sidebarSources_def)
  have e: "derivedLists None ?cl [''b'']
      = ([\<lparr>itemId = ''a'', itemConversation = trip\<rparr>],
         [\<lparr>itemId = ''b'', itemConversation = budget\<rparr>])"
    by (simp add: derivedLists_def sidebarSources_def)
  from lists_partition [OF d e] d e show ?thesis by simp
qed

section \<open>Properties of the title summarization\<close>

text \<open>
  Claim C2: the code departs from it. The summarization of \<open>a\<close> starts while \<open>a\<close> is
  open; after the first chunk the user selects \<open>b\<close> (the swap loads \<open>b\<close> with its live
  title \<open>Budget\<close>); the second chunk arrives and the stream ends. The chunks are
  written to the entry of \<open>a\<close> only, but on completion the call compares \<open>id\<close> with the
  \<open>currentId\<close> it read before its first \<open>await\<close>, and so writes the content into the
  live title, which is now that of \<open>b\<close>.
\<close>

theorem summary_overwrites_other_live_title:
  "handleSelect ''b'' tripActive = Inr budgetActive
   \<and> liveTitle (msg budgetActive) = ''Budget''
   \<and> handleSummaryTitle ''a'' [Chunk ''New '', Select ''b'', Chunk ''title''] tripActive =
       Inr \<lparr>conv = \<lparr>conversationList = [(''default'', emptyConversation),
                         (''a'', trip\<lparr>title := ''New title''\<rparr>), (''b'', budget)],
                      pinned = [], currentId = ''b''\<rparr>,
            msg = setTitle ''New title'' (msg budgetActive)\<rparr>"
  by (simp add: handleSummaryTitle_def summaryStart_def summaryChunk_def summaryDone_def
      handleSelect_def tripActive_def budgetActive_def trip_def budget_def initialApp_def
      query_def addOrUpdate_def setCurrentId_def backup_def restore_def setTitle_def
      emptyConversation_def Let_def)

text \<open>
  Claim C4: the code departs from it. The summarization of \<open>a\<close> starts while \<open>b\<close> is
  open; after the first chunk the user selects \<open>a\<close>, whose live title becomes the
  content so far; the second chunk arrives and the stream ends with \<open>a\<close> open. The
  final content reaches the entry of \<open>a\<close> in the list, but not the live title: the
  comparison on completion uses the \<open>currentId\<close> read at the start of the call.
\<close>

theorem summary_skips_live_title_of_active:
  "handleSummaryTitle ''a'' [Chunk ''New '', Select ''a'', Chunk ''title''] budgetActive =
       Inr \<lparr>conv = \<lparr>conversationList = [(''default'', emptyConversation),
                         (''a'', trip\<lparr>title := ''New title''\<rparr>), (''b'', budget)],
                      pinned = [], currentId = ''a''\<rparr>,
            msg = restore (trip\<lparr>title := ''New ''\<rparr>) (msg initialApp)\<rparr>
   \<and> liveTitle (restore (trip\<lparr>title := ''New ''\<rparr>) (msg initialApp)) = ''New ''"
  by (simp add: handleSummaryTitle_def summaryStart_def summaryChunk_def summaryDone_def
      handleSelect_def tripActive_def budgetActive_def trip_def budget_def initialApp_def
      query_def addOrUpdate_def setCurrentId_def backup_def restore_def setTitle_def
      emptyConversation_def Let_def)

lemma summaryChunk_simps:
  "fst (summaryChunk v (task, s)) = task\<lparr>taskContent := taskContent task @ v\<rparr>"
  "msg (snd (summaryChunk v (task, s))) = msg s"
  "currentId (conv (snd (summaryChunk v (task, s)))) = currentId (conv s)"
  "pinned (conv (snd (summaryChunk v (task, s)))) = pinned (conv s)"
  "query k (conv (snd (summaryChunk v (task, s)))) =
     (if k = taskId task then Some ((taskConversation task)\<lparr>title := taskContent task @ v\<rparr>)
      else query k (conv s))"
  by (simp_all add: summaryChunk_def Let_def query_addOrUpdate) (simp_all add: addOrUpdate_def)

text \<open>
  A chunk of the stream is written to the entry of the captured id only: the live fields,
  the current id, the pinned set and every other entry of the list stay as they are.
\<close>

theorem summaryChunk_frame:
  "msg (snd (summaryChunk v (task, s))) = msg s
   \<and> currentId (conv (snd (summaryChunk v (task, s)))) = currentId (conv s)
   \<and> pinned (conv (snd (summaryChunk v (task, s)))) = pinned (conv s)
   \<and> query (taskId task) (conv (snd (summaryChunk v (task, s)))) =
       Some ((taskConversation task)\<lparr>title := taskContent task @ v\<rparr>)
   \<and> (\<forall>k. k \<noteq> taskId task \<longrightarrow>
         query k (conv (snd (summaryChunk v (task, s)))) = query k (conv s))"
  by (simp add: summaryChunk_simps)

theorem summaryChunk_frame_witness:
  "msg (snd (summaryChunk ''New ''
          (\<lparr>taskId = ''a'', taskCurrentId = ''a'', taskConversation = trip, taskMessages = [],
            taskSystemRole = '''', taskContent = ''''\<rparr>, budgetActive))) = msg budgetActive
   \<and> query ''b'' (conv (snd (summaryChunk ''New ''
          (\<lparr>taskId = ''a'', taskCurrentId = ''a'', taskConversation = trip, taskMessages = [],
            taskSystemRole = '''', taskContent = ''''\<rparr>, budgetActive)))) = Some budget"
proof -
  let ?task = "\<lparr>taskId = ''a'', taskCurrentId = ''a'', taskConversation = trip,
                taskMessages = [], taskSystemRole = '''', taskContent = ''''\<rparr>"
  have q: "query ''b'' (conv budgetActive) = Some budget"
    by (simp add: budgetActive_def query_def)
  have n: "''b'' \<noteq> taskId ?task" by simp
  from summaryChunk_frame [of "''New ''" ?task budgetActive] n q show ?thesis
    by (metis (no_types, lifting))
qed

lemma runEvents_chunks:
  assumes "list_all isChunk evs"
  shows "\<exists>s'. runEvents evs (task, s) =
             Inr (task\<lparr>taskContent := taskContent task @ concat (map chunkText evs)\<rparr>, s')
       \<and> msg s' = msg s \<and> currentId (conv s') = currentId (conv s)
       \<and> (\<forall>k. k \<noteq> taskId task \<longrightarrow> query k (conv s') = query k (conv s))
       \<and> (evs \<noteq> [] \<longrightarrow> query (taskId task) (conv s') =
            Some ((taskConversation task)
                    \<lparr>title := taskContent task @ concat (map chunkText evs)\<rparr>))"
  using assms
proof (induction evs arbitrary: task s)
  case Nil
  show ?case by simp
next
  case (Cons e evs)
  from Cons.prems obtain v where e: "e = Chunk v" and r: "list_all isChunk evs"
    by (cases e) auto
  let ?task = "task\<lparr>taskContent := taskContent task @ v\<rparr>"
  let ?s = "snd (summaryChunk v (task, s))"
  have sc: "summaryChunk v (task, s) = (?task, ?s)"
    by (simp add: prod_eq_iff summaryChunk_simps)
  from Cons.IH [OF r, of ?task ?s] obtain s' where
    run: "runEvents evs (?task, ?s) =
            Inr (?task\<lparr>taskContent := taskContent ?task @ concat (map chunkText evs)\<rparr>, s')"
    and m: "msg s' = msg ?s" and c: "currentId (conv s') = currentId (conv ?s)"
    and o: "\<forall>k. k \<noteq> taskId ?task \<longrightarrow> query k (conv s') = query k (conv ?s)"
    and t: "evs \<noteq> [] \<longrightarrow> query (taskId ?task) (conv s') =
            Some ((taskConversation ?task)
                    \<lparr>title := taskContent ?task @ concat (map chunkText evs)\<rparr>)"
    by blast
  have t': "query (taskId task) (conv s') =
            Some ((taskConversation task)
                    \<lparr>title := taskContent task @ v @ concat (map chunkText evs)\<rparr>)"
  proof (cases "evs = []")
    case True
    with run have "s' = ?s" by simp
    with True show ?thesis by (simp add: summaryChunk_simps)
  next
    case False
    with t show ?thesis by simp
  qed
  have step: "runEvents (Chunk v # evs) (task, s) = runEvents evs (?task, ?s)"
    by (metis sc runEvents.simps(2))
  show ?case
    unfolding e step using run m c o t'
    by (simp add: summaryChunk_simps)
qed

text \<open>
  When no conversation is selected while the stream is read, \<open>handleSummaryTitle\<close>
  returns, the entry of the summarized id holds the whole content as its title, and the
  content is written to the live title exactly when the summarized conversation is the
  current one.
\<close>

theorem summary_without_switch:
  assumes "query k (conv s) = Some c" and "list_all isChunk evs"
  shows "\<exists>s'. handleSummaryTitle k evs s = Inr s'
       \<and> currentId (conv s') = currentId (conv s)
       \<and> (evs \<noteq> [] \<longrightarrow>
            query k (conv s') = Some (c\<lparr>title := concat (map chunkText evs)\<rparr>))
       \<and> msg s' = (if k = currentId (conv s)
                   then setTitle (concat (map chunkText evs)) (msg s) else msg s)"
proof -
  let ?task = "\<lparr>taskId = k, taskCurrentId = currentId (conv s), taskConversation = c,
               taskMessages = (if k = currentId (conv s) then liveMessages (msg s)
                               else messages c),
               taskSystemRole = (if k = currentId (conv s) then liveSystemInstruction (msg s)
                                 else systemInstruction c),
               taskContent = ''''\<rparr>"
  have st: "summaryStart k s = Inr ?task"
    by (simp add: summaryStart_def assms(1))
  from runEvents_chunks [OF assms(2), of ?task s] obtain s' where
    run: "runEvents evs (?task, s) =
            Inr (?task\<lparr>taskContent := concat (map chunkText evs)\<rparr>, s')"
    and m: "msg s' = msg s" and cu: "currentId (conv s') = currentId (conv s)"
    and t: "evs \<noteq> [] \<longrightarrow> query k (conv s') = Some (c\<lparr>title := concat (map chunkText evs)\<rparr>)"
    by auto
  show ?thesis
    using m cu t
    by (auto simp: handleSummaryTitle_def st run summaryDone_def Let_def)
qed

theorem summary_without_switch_witness:
  "query ''a'' (conv tripActive) = Some trip
   \<and> list_all isChunk [Chunk ''New '', Chunk ''title'']
   \<and> (\<exists>s'. handleSummaryTitle ''a'' [Chunk ''New '', Chunk ''title''] tripActive = Inr s'
         \<and> query ''a'' (conv s') = Some (trip\<lparr>title := ''New title''\<rparr>)
         \<and> msg s' = setTitle ''New title'' (msg tripActive))"
proof -
  have q: "query ''a'' (conv tripActive) = Some trip"
    and c: "currentId (conv tripActive) = ''a''"
    by (simp_all add: tripActive_def query_def)
  have l: "list_all isChunk [Chunk ''New '', Chunk ''title'']" by simp
  from summary_without_switch [OF q l] have
    "\<exists>s'. handleSummaryTitle ''a'' [Chunk ''New '', Chunk ''title''] tripActive = Inr s'
         \<and> query ''a'' (conv s') = Some (trip\<lparr>title := ''New title''\<rparr>)
         \<and> msg s' = setTitle ''New title'' (msg tripActive)"
    unfolding c by auto
  with q l show ?thesis by blast
qed

section \<open>Properties of the search\<close>

lemma setProperty_frame:
  "conversationObjs (setProperty r k v h) = conversationObjs h
   \<and> length (recordObjs (setProperty r k v h)) = length (recordObjs h)
   \<and> take r (recordObjs (setProperty r k v h)) = take r (recordObjs h)"
  by (simp add: setProperty_def)

lemma partsLoop_frame:
  "conversationObjs (fst (partsLoop rx r k item ps (h, li))) = conversationObjs h
   \<and> length (recordObjs (fst (partsLoop rx r k item ps (h, li)))) = length (recordObjs h)
   \<and> take r (recordObjs (fst (partsLoop rx r k item ps (h, li)))) = take r (recordObjs h)"
proof (induction ps arbitrary: h li)
  case Nil
  show ?case by simp
next
  case (Cons part ps)
  show ?case
    by (simp add: Cons.IH setProperty_frame split: option.split prod.split)
qed

lemma messagesLoop_frame:
  "conversationObjs (fst (messagesLoop rx r k item ms (h, li))) = conversationObjs h
   \<and> length (recordObjs (fst (messagesLoop rx r k item ms (h, li)))) = length (recordObjs h)
   \<and> take r (recordObjs (fst (messagesLoop rx r k item ms (h, li)))) = take r (recordObjs h)"
proof (induction ms arbitrary: h li)
  case Nil
  show ?case by simp
next
  case (Cons message ms)
  obtain h1 li1 where p: "partsLoop rx r k item (parts message) (h, li) = (h1, li1)"
    by (cases "partsLoop rx r k item (parts message) (h, li)")
  from partsLoop_frame [of rx r k item "parts message" h li] p
  have "conversationObjs h1 = conversationObjs h"
    "length (recordObjs h1) = length (recordObjs h)"
    "take r (recordObjs h1) = take r (recordObjs h)" by simp_all
  with Cons.IH [of h1 li1] p show ?case by simp
qed

lemma entriesLoop_frame:
  "conversationObjs (fst (entriesLoop rx r es (h, li))) = conversationObjs h
   \<and> length (recordObjs (fst (entriesLoop rx r es (h, li)))) = length (recordObjs h)
   \<and> take r (recordObjs (fst (entriesLoop rx r es (h, li)))) = take r (recordObjs h)"
proof (induction es arbitrary: h li)
  case Nil
  show ?case by simp
next
  case (Cons e es)
  obtain k item where e: "e = (k, item)" by (cases e)
  obtain b li2 where t:
    "(case regexTest rx (title (conversationObjs h ! item)) li of
        (b1, li1) \<Rightarrow>
          if b1 then (True, li1)
          else regexTest rx (systemInstruction (conversationObjs h ! item)) li1) = (b, li2)"
    by (cases "case regexTest rx (title (conversationObjs h ! item)) li of
        (b1, li1) \<Rightarrow>
          if b1 then (True, li1)
          else regexTest rx (systemInstruction (conversationObjs h ! item)) li1")
  define h1 where "h1 = (if b then setProperty r k item h else h)"
  have f1: "conversationObjs h1 = conversationObjs h"
    "length (recordObjs h1) = length (recordObjs h)"
    "take r (recordObjs h1) = take r (recordObjs h)"
    by (simp_all add: h1_def setProperty_frame)
  obtain h2 li3 where m:
    "messagesLoop rx r k item (messages (conversationObjs h1 ! item)) (h1, li2) = (h2, li3)"
    by (cases "messagesLoop rx r k item (messages (conversationObjs h1 ! item)) (h1, li2)")
  from messagesLoop_frame [of rx r k item "messages (conversationObjs h1 ! item)" h1 li2] m f1
  have f2: "conversationObjs h2 = conversationObjs h"
    "length (recordObjs h2) = length (recordObjs h)"
    "take r (recordObjs h2) = take r (recordObjs h)" by simp_all
  have step: "entriesLoop rx r (e # es) (h, li) = entriesLoop rx r es (h2, li3)"
    using t m unfolding e h1_def by (auto split: prod.splits if_splits simp: Let_def)
  show ?case unfolding step using Cons.IH [of h2 li3] f2 by simp
qed

lemma set_update_subset: "set (AList.update k v al) \<subseteq> insert (k, v) (set al)"
  by (induction al) auto

lemma setProperty_result:
  assumes "r < length (recordObjs h)"
  shows "set (recordObjs (setProperty r k v h) ! r) \<subseteq> insert (k, v) (set (recordObjs h ! r))"
    and "distinct (map fst (recordObjs h ! r)) \<Longrightarrow>
            distinct (map fst (recordObjs (setProperty r k v h) ! r))"
  using assms by (simp_all add: setProperty_def set_update_subset AList.distinct_update)

lemma partsLoop_result:
  assumes "r < length (recordObjs h)"
  shows "set (recordObjs (fst (partsLoop rx r k item ps (h, li))) ! r)
           \<subseteq> insert (k, item) (set (recordObjs h ! r))
       \<and> (distinct (map fst (recordObjs h ! r)) \<longrightarrow>
            distinct (map fst (recordObjs (fst (partsLoop rx r k item ps (h, li))) ! r)))"
  using assms
proof (induction ps arbitrary: h li)
  case Nil
  show ?case by auto
next
  case (Cons part ps)
  let ?h' = "setProperty r k item h"
  have len: "r < length (recordObjs ?h')"
    using Cons.prems by (simp add: setProperty_frame)
  note c = setProperty_result [OF Cons.prems, of k item]
  have keep: "set (recordObjs (fst (partsLoop rx r k item ps (h, l))) ! r)
           \<subseteq> insert (k, item) (set (recordObjs h ! r))
       \<and> (distinct (map fst (recordObjs h ! r)) \<longrightarrow>
            distinct (map fst (recordObjs (fst (partsLoop rx r k item ps (h, l))) ! r)))" for l
    by (rule Cons.IH [OF Cons.prems])
  have put: "set (recordObjs (fst (partsLoop rx r k item ps (?h', l))) ! r)
           \<subseteq> insert (k, item) (set (recordObjs h ! r))
       \<and> (distinct (map fst (recordObjs h ! r)) \<longrightarrow>
            distinct (map fst (recordObjs (fst (partsLoop rx r k item ps (?h', l))) ! r)))" for l
    using Cons.IH [OF len, of l] c by blast
  show ?case
    using keep put by (simp split: option.split prod.split)
qed

lemma messagesLoop_result:
  assumes "r < length (recordObjs h)"
  shows "set (recordObjs (fst (messagesLoop rx r k item ms (h, li))) ! r)
           \<subseteq> insert (k, item) (set (recordObjs h ! r))
       \<and> (distinct (map fst (recordObjs h ! r)) \<longrightarrow>
            distinct (map fst (recordObjs (fst (messagesLoop rx r k item ms (h, li))) ! r)))"
  using assms
proof (induction ms arbitrary: h li)
  case Nil
  show ?case by auto
next
  case (Cons message ms)
  obtain h1 li1 where p: "partsLoop rx r k item (parts message) (h, li) = (h1, li1)"
    by (cases "partsLoop rx r k item (parts message) (h, li)")
  from partsLoop_frame [of rx r k item "parts message" h li] p Cons.prems
  have len: "r < length (recordObjs h1)" by simp
  from partsLoop_result [OF Cons.prems, of rx k item "parts message" li] p
  have a: "set (recordObjs h1 ! r) \<subseteq> insert (k, item) (set (recordObjs h ! r))"
    and a': "distinct (map fst (recordObjs h ! r)) \<longrightarrow> distinct (map fst (recordObjs h1 ! r))"
    by simp_all
  have step:
    "messagesLoop rx r k item (message # ms) (h, li) = messagesLoop rx r k item ms (h1, li1)"
    by (simp add: p)
  from Cons.IH [OF len, of li1] a a' show ?case
    unfolding step by blast
qed

lemma entriesLoop_result:
  assumes "r < length (recordObjs h)"
  shows "set (recordObjs (fst (entriesLoop rx r es (h, li))) ! r)
           \<subseteq> set (recordObjs h ! r) \<union> set es
       \<and> (distinct (map fst (recordObjs h ! r)) \<longrightarrow>
            distinct (map fst (recordObjs (fst (entriesLoop rx r es (h, li))) ! r)))"
  using assms
proof (induction es arbitrary: h li)
  case Nil
  show ?case by simp
next
  case (Cons e es)
  obtain k item where e: "e = (k, item)" by (cases e)
  obtain b li2 where t:
    "(case regexTest rx (title (conversationObjs h ! item)) li of
        (b1, li1) \<Rightarrow>
          if b1 then (True, li1)
          else regexTest rx (systemInstruction (conversationObjs h ! item)) li1) = (b, li2)"
    by (cases "case regexTest rx (title (conversationObjs h ! item)) li of
        (b1, li1) \<Rightarrow>
          if b1 then (True, li1)
          else regexTest rx (systemInstruction (conversationObjs h ! item)) li1")
  define h1 where "h1 = (if b then setProperty r k item h else h)"
  have len1: "r < length (recordObjs h1)"
    using Cons.prems by (simp add: h1_def setProperty_frame)
  have a1: "set (recordObjs h1 ! r) \<subseteq> insert (k, item) (set (recordObjs h ! r))"
    and d1: "distinct (map fst (recordObjs h ! r)) \<longrightarrow> distinct (map fst (recordObjs h1 ! r))"
    using setProperty_result [OF Cons.prems, of k item] by (auto simp: h1_def)
  obtain h2 li3 where m:
    "messagesLoop rx r k item (messages (conversationObjs h1 ! item)) (h1, li2) = (h2, li3)"
    by (cases "messagesLoop rx r k item (messages (conversationObjs h1 ! item)) (h1, li2)")
  from messagesLoop_frame [of rx r k item "messages (conversationObjs h1 ! item)" h1 li2] m len1
  have len2: "r < length (recordObjs h2)" by simp
  from messagesLoop_result [OF len1, of rx k item "messages (conversationObjs h1 ! item)" li2] m
  have a2: "set (recordObjs h2 ! r) \<subseteq> insert (k, item) (set (recordObjs h1 ! r))"
    and d2: "distinct (map fst (recordObjs h1 ! r)) \<longrightarrow> distinct (map fst (recordObjs h2 ! r))"
    by simp_all
  have step: "entriesLoop rx r (e # es) (h, li) = entriesLoop rx r es (h2, li3)"
    using t m unfolding e h1_def by (auto split: prod.splits if_splits simp: Let_def)
  have s: "set (e # es) = insert (k, item) (set es)" by (simp add: e)
  from Cons.IH [OF len2, of li3] a1 a2 d1 d2 show ?case
    unfolding step s by blast
qed

text \<open>
  The result of \<open>search\<close> is a filtered view of its input: every entry of the returned
  map is an entry of the input map, with the same key and the same Conversation object,
  and no key occurs twice.
\<close>

theorem search_filtered_view:
  assumes "dat < length (recordObjs h)"
    and "fst (search newRegExp keyword dat h) = Inr r"
  shows "set (recordObjs (snd (search newRegExp keyword dat h)) ! r) \<subseteq> set (recordObjs h ! dat)
       \<and> distinct (map fst (recordObjs (snd (search newRegExp keyword dat h)) ! r))"
proof -
  let ?h0 = "h\<lparr>recordObjs := recordObjs h @ [[]]\<rparr>"
  let ?r = "length (recordObjs h)"
  from assms(2) obtain rx where rx: "newRegExp (trim keyword) = Some rx" and r: "r = ?r"
    by (auto simp: search_def Let_def split: option.splits)
  have len: "?r < length (recordObjs ?h0)" by simp
  have e: "recordObjs ?h0 ! ?r = []" by simp
  have d: "recordObjs ?h0 ! dat = recordObjs h ! dat"
    using assms(1) by (simp add: nth_append)
  have s: "search newRegExp keyword dat h =
             (Inr ?r, fst (entriesLoop rx ?r (recordObjs h ! dat) (?h0, 0)))"
    unfolding search_def Let_def d rx by simp
  from entriesLoop_result [OF len, of rx "recordObjs h ! dat" 0]
  show ?thesis
    unfolding s r fst_conv snd_conv e by simp
qed

theorem search_filtered_view_witness:
  "0 < length (recordObjs titleFirst)
   \<and> fst (search literalRegExp ''hello'' 0 titleFirst) = Inr 1
   \<and> recordObjs titleFirst ! 0 = [(''b'', 1), (''a'', 0)]
   \<and> set (recordObjs (snd (search literalRegExp ''hello'' 0 titleFirst)) ! 1)
       \<subseteq> {(''b'', 1), (''a'', 0)}"
proof -
  have l: "0 < length (recordObjs titleFirst)"
    and d: "recordObjs titleFirst ! 0 = [(''b'', 1), (''a'', 0)]"
    by (simp_all add: titleFirst_def)
  have r: "fst (search literalRegExp ''hello'' 0 titleFirst) = Inr 1"
    by (simp add: search_def literalRegExp_def titleFirst_def Let_def)
  from search_filtered_view [OF l r] l d r show ?thesis
    by simp
qed

text \<open>
  Claim C3: the code departs from it. The map holds \<open>a\<close>, which matches \<open>hello\<close> in a
  message part only, and then \<open>b\<close>, titled \<open>Hello World\<close>. A fresh test of the title
  of \<open>b\<close> succeeds, but \<open>search\<close> returns \<open>a\<close> alone: the expression has the flag
  \<open>g\<close>, the match in the part of \<open>a\<close> leaves \<open>lastIndex\<close> at 5, and the test of the
  title of \<open>b\<close> starts there. With the entries in the other order both are returned.
\<close>

theorem search_skips_title_after_match:
  "regexTest (literalMatcher (trim ''hello'')) (title helloWorld) 0 = (True, 5)
   \<and> fst (search literalRegExp ''hello'' 0 messageFirst) = Inr 1
   \<and> recordObjs (snd (search literalRegExp ''hello'' 0 messageFirst)) ! 1 = [(''a'', 0)]
   \<and> recordObjs (snd (search literalRegExp ''hello'' 0 titleFirst)) ! 1
       = [(''b'', 1), (''a'', 0)]
   \<and> recordObjs (snd (search literalRegExp ''zzz'' 0 messageFirst)) ! 1 = []"
  by (simp add: search_def literalRegExp_def messageFirst_def titleFirst_def helloThere_def
      helloWorld_def emptyConversation_def trim_def isSpace_def literalMatcher_def
      regexTest_def setProperty_def canonicalize_def)

text \<open>
  Claim C5. For every keyword, whatever the \<open>RegExp\<close> constructor makes of it, every
  heap and every input map, the heap after \<open>search\<close> holds the same Conversation
  objects, every \<open>Record\<close> object that existed before the call (the input map among
  them) is unchanged, and the address returned is that of an object the call allocated.
\<close>

theorem search_pure:
  "conversationObjs (snd (search newRegExp keyword dat h)) = conversationObjs h
   \<and> take (length (recordObjs h)) (recordObjs (snd (search newRegExp keyword dat h)))
       = recordObjs h
   \<and> length (recordObjs (snd (search newRegExp keyword dat h))) = Suc (length (recordObjs h))
   \<and> fst (search newRegExp keyword dat h) \<in> {Inl SyntaxError, Inr (length (recordObjs h))}"
proof (cases "newRegExp (trim keyword)")
  case None
  then show ?thesis by (simp add: search_def Let_def)
next
  case (Some rx)
  from entriesLoop_frame [of rx "length (recordObjs h)"
      "recordObjs (h\<lparr>recordObjs := recordObjs h @ [[]]\<rparr>) ! dat"
      "h\<lparr>recordObjs := recordObjs h @ [[]]\<rparr>" 0]
  show ?thesis by (simp add: search_def Let_def Some)
qed

section \<open>Properties of the model options\<close>

lemma openEffect_empty: "openEffect opn [] s = s"
  by (simp add: openEffect_def fetchModelsThen_def)

lemma openEffect_store:
  "storeModels (openEffect opn fetched s) = [] \<Longrightarrow> openEffect opn fetched s = s"
  by (auto simp: openEffect_def fetchModelsThen_def modelStoreUpdate_def split: if_splits)

lemma modelOptions_store: "storeModels (snd (modelOptions env s)) = storeModels s"
  by (simp add: modelOptions_def Let_def split: prod.split)

lemma modelOptions_table:
  "storeModels s = [] \<Longrightarrow> modelTable (snd (modelOptions env s)) = modelTable s"
  by (simp add: modelOptions_def Let_def split: prod.split)

lemma reachable_table:
  "viewReachable s \<Longrightarrow> storeModels s = [] \<Longrightarrow> modelTable s = Model"
proof (induction rule: viewReachable.induct)
  case start
  show ?case by (simp add: initialView_def)
next
  case (effect s opn fetched)
  from effect.prems have "openEffect opn fetched s = s" by (rule openEffect_store)
  with effect show ?case by simp
next
  case (options s env)
  from options.prems have e: "storeModels s = []" by (simp add: modelOptions_store)
  with options.IH modelOptions_table [OF e, of env] show ?case by simp
qed

text \<open>
  Claim C8, as amended. An empty fetched sequence leaves the view state, and so the model
  store, as it is. While the model store is empty, \<open>modelOptions\<close> leaves the Model
  table as it is (the built-in table, in every state the view reaches), and its options
  are the keys of the table when \<open>GEMINI_MODEL_LIST\<close> builds no list (so whenever the
  variable is not set), and the list it builds otherwise. The table is changed after a
  fetch only if the fetched sequence is not empty.
\<close>

theorem empty_fetch_defaults:
  assumes "storeModels s = []"
  shows "openEffect opn [] s = s
       \<and> modelTable (snd (modelOptions env s)) = modelTable s
       \<and> (viewReachable s \<longrightarrow> modelTable s = Model)
       \<and> fst (modelOptions env s) =
           (if fst (userModelsLoop (map fst (modelTable s)) (userModelsOf env)
                      ([], ''gemini-1.5-flash-latest'', settingModel s)) = []
            then map fst (modelTable s)
            else fst (userModelsLoop (map fst (modelTable s)) (userModelsOf env)
                        ([], ''gemini-1.5-flash-latest'', settingModel s)))
       \<and> fst (modelOptions None s) = map fst (modelTable s)
       \<and> (modelTable (snd (modelOptions env (openEffect opn fetched s))) \<noteq> modelTable s
            \<longrightarrow> fetched \<noteq> [])"
proof -
  have a: "openEffect opn [] s = s"
    by (rule openEffect_empty)
  have b: "modelTable (snd (modelOptions env s)) = modelTable s" for env
    using assms by (rule modelOptions_table)
  have c: "fst (modelOptions env s) =
           (if fst (userModelsLoop (map fst (modelTable s)) (userModelsOf env)
                      ([], ''gemini-1.5-flash-latest'', settingModel s)) = []
            then map fst (modelTable s)
            else fst (userModelsLoop (map fst (modelTable s)) (userModelsOf env)
                        ([], ''gemini-1.5-flash-latest'', settingModel s)))" for env
    using assms by (simp add: modelOptions_def Let_def split: prod.split)
  have d: "fst (modelOptions None s) = map fst (modelTable s)"
    unfolding c by (simp add: userModelsOf_def)
  have f: "modelTable (snd (modelOptions env (openEffect opn fetched s))) \<noteq> modelTable s
            \<longrightarrow> fetched \<noteq> []"
    using openEffect_empty [of opn s] b by auto
  have g: "viewReachable s \<longrightarrow> modelTable s = Model"
    using assms reachable_table by blast
  from a b c d f g show ?thesis by blast
qed

theorem empty_fetch_defaults_witness:
  "storeModels initialView = []
   \<and> viewReachable initialView
   \<and> openEffect True [] initialView = initialView
   \<and> modelTable (snd (modelOptions None initialView)) = Model
   \<and> fst (modelOptions None initialView) = map fst Model"
proof -
  have h: "storeModels initialView = []"
    by (simp add: initialView_def)
  have r: "viewReachable initialView"
    by (rule viewReachable.start)
  from empty_fetch_defaults [OF h, of True None "[]"] r
  have "openEffect True [] initialView = initialView"
    and "modelTable (snd (modelOptions None initialView)) = modelTable initialView"
    and "modelTable initialView = Model"
    and "fst (modelOptions None initialView) = map fst (modelTable initialView)"
    by blast+
  with h r show ?thesis by simp
qed

text \<open>
  The claim as stated fails where \<open>GEMINI_MODEL_LIST\<close> names a model: the service
  returns the empty sequence, the store stays empty, and the options are the configured
  list, not the keys of the Model table.
\<close>

theorem custom_list_counterexample:
  "openEffect True [] initialView = initialView
   \<and> storeModels initialView = []
   \<and> modelTable initialView = Model
   \<and> fst (modelOptions (Some ''my-model'') initialView) = [''my-model'']
   \<and> [''my-model''] \<noteq> map fst Model"
proof -
  have u: "userModelsLoop dml (userModelsOf (Some ''my-model'')) ([], d, sm)
             = ([''my-model''], d, sm)" for dml d sm
    by (simp add: userModelsOf_def userModelStep_def startsWith_def)
  have "fst (modelOptions (Some ''my-model'') initialView) = [''my-model'']"
    by (simp add: modelOptions_def initialView_def u Let_def)
  moreover have "[''my-model''] \<noteq> map fst Model"
    by (simp add: Model_def)
  ultimately show ?thesis
    by (simp add: openEffect_def fetchModelsThen_def initialView_def)
qed

section \<open>Properties of the validation schema\<close>

lemma zNumber_between: "zNumberGteLte lo hi v = Some w \<Longrightarrow> w = v \<and> between lo hi w"
  by (auto simp: zNumberGteLte_def between_def gte_def lte_def
      split: jsvalue.splits jsnumber.splits if_splits)

lemma zNumber_outside: "outside lo hi v \<Longrightarrow> zNumberGteLte lo hi v = None"
  by (auto simp: zNumberGteLte_def outside_def gte_def lte_def
      split: jsvalue.splits jsnumber.splits)

lemma outside_defined: "outside lo hi v \<Longrightarrow> v \<noteq> Undefined"
  by (auto simp: outside_def)

lemma zDefault_number:
  assumes "zDefault (Number (Finite d)) (zNumberGteLte lo hi) v = Some w"
  shows "between lo hi w"
  using assms zNumber_between [of lo hi v w] zNumber_between [of lo hi "Number (Finite d)" w]
  by (auto simp: zDefault_def split: if_splits)

lemma zDefault_optional_number:
  assumes "zDefault (Number (Finite d)) (zOptional (zNumberGteLte lo hi)) v = Some w"
  shows "between lo hi w"
  using assms zNumber_between [of lo hi v w] zNumber_between [of lo hi "Number (Finite d)" w]
  by (auto simp: zDefault_def zOptional_def split: if_splits)

lemma zDefault_enum:
  assumes "zDefault (String d) (zEnum opts) v = Some w"
  shows "w \<in> String ` set opts"
  using assms by (auto simp: zDefault_def zEnum_def split: if_splits jsvalue.splits)

lemma zDefault_number_outside:
  "outside lo hi v \<Longrightarrow> zDefault d (zNumberGteLte lo hi) v = None"
  by (simp add: zDefault_def zNumber_outside outside_defined)

lemma zDefault_optional_number_outside:
  "outside lo hi v \<Longrightarrow> zDefault d (zOptional (zNumberGteLte lo hi)) v = None"
  by (simp add: zDefault_def zOptional_def zNumber_outside outside_defined)

lemma zDefault_enum_outside:
  "s \<notin> set opts \<Longrightarrow> zDefault d (zEnum opts) (String s) = None"
  by (simp add: zDefault_def zEnum_def)

lemma formSchema_fields:
  assumes "formSchema isUrl raw = Some v"
  shows "zDefault (Number (Finite 0)) (zOptional (zNumberGteLte 0 50)) (maxHistoryLength raw)
           = Some (maxHistoryLength v)"
    and "zDefault (Number (Finite 0.95)) (zNumberGteLte 0 1) (topP raw) = Some (topP v)"
    and "zDefault (Number (Finite 40)) (zNumberGteLte 0 128) (topK raw) = Some (topK v)"
    and "zDefault (Number (Finite 1)) (zNumberGteLte 0 1) (temperature raw) = Some (temperature v)"
    and "zDefault (Number (Finite 8192)) (zNumberGteLte 0 8192) (maxOutputTokens raw)
           = Some (maxOutputTokens v)"
    and "zDefault (String ''none'') (zEnum [''none'', ''low'', ''middle'', ''high'']) (safety raw)
           = Some (safety v)"
  using assms unfolding formSchema_def
  by (auto simp: bind_eq_Some_conv)

lemma formSchema_rejects:
  assumes "zDefault (Number (Finite 0)) (zOptional (zNumberGteLte 0 50)) (maxHistoryLength raw)
             = None
         \<or> zDefault (Number (Finite 0.95)) (zNumberGteLte 0 1) (topP raw) = None
         \<or> zDefault (Number (Finite 40)) (zNumberGteLte 0 128) (topK raw) = None
         \<or> zDefault (Number (Finite 1)) (zNumberGteLte 0 1) (temperature raw) = None
         \<or> zDefault (Number (Finite 8192)) (zNumberGteLte 0 8192) (maxOutputTokens raw) = None
         \<or> zDefault (String ''none'') (zEnum [''none'', ''low'', ''middle'', ''high''])
              (safety raw) = None"
  shows "formSchema isUrl raw = None"
proof (cases "formSchema isUrl raw")
  case None
  then show ?thesis .
next
  case (Some v)
  from formSchema_fields [OF Some] assms show ?thesis by auto
qed

text \<open>
  Claim C10. Values the schema accepts have \<open>maxHistoryLength\<close> in 0..50, \<open>topP\<close> in
  0..1, \<open>topK\<close> in 0..128, \<open>temperature\<close> in 0..1, \<open>maxOutputTokens\<close> in 0..8192 and
  \<open>safety\<close> one of the four levels, and they are what the store's \<open>update\<close> receives.
  Form values with a number outside of these bounds in one of the fields, or with a
  string other than the four levels as \<open>safety\<close>, are rejected, and the store is left
  as it is.
\<close>

theorem formSchema_bounds:
  "(formSchema isUrl raw = Some v \<longrightarrow>
      between 0 50 (maxHistoryLength v) \<and> between 0 1 (topP v) \<and> between 0 128 (topK v)
      \<and> between 0 1 (temperature v) \<and> between 0 8192 (maxOutputTokens v)
      \<and> safety v \<in> String ` set [''none'', ''low'', ''middle'', ''high'']
      \<and> formHandleSubmit isUrl update raw st = update v st)
   \<and> (outside 0 50 (maxHistoryLength raw) \<or> outside 0 1 (topP raw)
       \<or> outside 0 128 (topK raw) \<or> outside 0 1 (temperature raw)
       \<or> outside 0 8192 (maxOutputTokens raw)
       \<or> (\<exists>s. safety raw = String s \<and> s \<notin> set [''none'', ''low'', ''middle'', ''high''])
       \<longrightarrow> formSchema isUrl raw = None \<and> formHandleSubmit isUrl update raw st = st)"
proof (intro conjI impI)
  assume a: "formSchema isUrl raw = Some v"
  note f = formSchema_fields [OF a]
  show "between 0 50 (maxHistoryLength v)" by (rule zDefault_optional_number [OF f(1)])
  show "between 0 1 (topP v)" by (rule zDefault_number [OF f(2)])
  show "between 0 128 (topK v)" by (rule zDefault_number [OF f(3)])
  show "between 0 1 (temperature v)" by (rule zDefault_number [OF f(4)])
  show "between 0 8192 (maxOutputTokens v)" by (rule zDefault_number [OF f(5)])
  show "safety v \<in> String ` set [''none'', ''low'', ''middle'', ''high'']"
    by (rule zDefault_enum [OF f(6)])
  show "formHandleSubmit isUrl update raw st = update v st"
    by (simp add: formHandleSubmit_def handleSubmit_def a)
next
  assume o: "outside 0 50 (maxHistoryLength raw) \<or> outside 0 1 (topP raw)
       \<or> outside 0 128 (topK raw) \<or> outside 0 1 (temperature raw)
       \<or> outside 0 8192 (maxOutputTokens raw)
       \<or> (\<exists>s. safety raw = String s \<and> s \<notin> set [''none'', ''low'', ''middle'', ''high''])"
  have n: "formSchema isUrl raw = None"
    by (rule formSchema_rejects)
      (use o zDefault_number_outside zDefault_optional_number_outside zDefault_enum_outside
        in metis)
  show "formSchema isUrl raw = None" by (rule n)
  show "formHandleSubmit isUrl update raw st = st"
    by (simp add: formHandleSubmit_def n)
qed

theorem formSchema_bounds_witness:
  "formSchema (\<lambda>u. True) goodForm =
     Some (goodForm\<lparr>maxHistoryLength := Number (Finite 0), temperature := Number (Finite 1)\<rparr>)
   \<and> between 0 1 (topP goodForm)
   \<and> formHandleSubmit (\<lambda>u. True) (\<lambda>v st. v) goodForm badForm =
       goodForm\<lparr>maxHistoryLength := Number (Finite 0), temperature := Number (Finite 1)\<rparr>
   \<and> outside 0 1 (topP badForm)
   \<and> formSchema (\<lambda>u. True) badForm = None
   \<and> formHandleSubmit (\<lambda>u. True) (\<lambda>v st. v) badForm goodForm = goodForm"
proof -
  let ?v = "goodForm\<lparr>maxHistoryLength := Number (Finite 0), temperature := Number (Finite 1)\<rparr>"
  have g: "formSchema (\<lambda>u. True) goodForm = Some ?v"
    by (simp add: formSchema_def goodForm_def zOptional_def zDefault_def zString_def zUrl_def
        zNumberGteLte_def zEnum_def zBoolean_def gte_def lte_def)
  have p: "topP ?v = topP goodForm" by simp
  have o: "outside 0 1 (topP badForm)"
    by (simp add: badForm_def outside_def)
  from formSchema_bounds [of "\<lambda>u. True" goodForm ?v "\<lambda>v st. v" badForm]
       formSchema_bounds [of "\<lambda>u. True" badForm ?v "\<lambda>v st. v" goodForm] g o
  show ?thesis unfolding p by simp
qed

end
